theory Spec2Isabelle
  imports Main "HOL-Library.Word"
begin

section \<open>Bytes, Python values and errors\<close>

text \<open>
  A Python \<open>bytes\<close> object is a list of 8-bit words; a Python \<open>int\<close> is an
  \<open>int\<close>; a Python \<open>str\<close> is the list of its code points. Every exception
  the modelled code can raise is a constructor of \<open>error\<close>, and a function that
  can raise returns \<open>error + 'a\<close> with \<open>Inl\<close> for the exception.
\<close>

type_synonym byte = "8 word"
type_synonym bytes = "byte list"
type_synonym pystr = "nat list"

datatype error =
    ValueError
  | StructError
  | UnicodeEncodeError
  | ZeroDivisionError

text \<open>Python's \<open>len\<close>, as an \<open>int\<close>.\<close>

definition len :: "'a list \<Rightarrow> int" where
  "len xs = int (length xs)"

subsection \<open>\<open>struct.pack\<close> and \<open>struct.unpack\<close> for the formats \<open>H\<close> and \<open>B\<close>\<close>

text \<open>
  Big-endian unsigned short and unsigned char. \<open>struct.pack\<close> raises
  \<open>struct.error\<close> for a value outside the field's range.
\<close>

definition pack_H :: "int \<Rightarrow> error + bytes" where
  "pack_H n =
     (if 0 \<le> n \<and> n < 65536 then Inr [word_of_int (n div 256), word_of_int (n mod 256)]
      else Inl StructError)"

definition pack_B :: "int \<Rightarrow> error + bytes" where
  "pack_B n = (if 0 \<le> n \<and> n < 256 then Inr [word_of_int n] else Inl StructError)"

definition unpack_H :: "byte \<Rightarrow> byte \<Rightarrow> int" where
  "unpack_H hi lo = uint hi * 256 + uint lo"

definition unpack_B :: "byte \<Rightarrow> int" where
  "unpack_B b = uint b"

section \<open>API.py: the data segment\<close>

definition HEADER_MIN_LENGTH :: int where
  "HEADER_MIN_LENGTH = 6"

definition DEFAULT_HEADER_MAX_LENGTH :: int where
  "DEFAULT_HEADER_MAX_LENGTH = 2 ^ 16 - 1"

definition DEFAULT_MAX_WINDOW_SIZE :: int where
  "DEFAULT_MAX_WINDOW_SIZE = 2 ^ 7"

definition DEFAULT_MAX_MSG_SIZE :: int where
  "DEFAULT_MAX_MSG_SIZE = DEFAULT_HEADER_MAX_LENGTH - 4"

text \<open>
  The attributes of a \<open>MessageHeader\<close> object. \<open>window_size\<close> is the encoded
  value (the real size minus one), \<open>actual_window_size\<close> the real one.
\<close>

record MessageHeader =
  total_length :: int
  max_msg_size :: int
  actual_window_size :: int
  window_size :: int
  package_num :: int
  data :: bytes

text \<open>
  The first step of \<open>MessageHeader.__init__\<close>: the total length that is stored, and
  whether the constructor emits its warning. A missing length (\<open>None\<close>) is computed; a
  length that disagrees with the payload is replaced, with a warning.
\<close>

definition fix_total_length :: "int option \<Rightarrow> bytes \<Rightarrow> int \<times> bool" where
  "fix_total_length tl_arg d =
     (case tl_arg of
        None \<Rightarrow> (HEADER_MIN_LENGTH + len d, False)
      | Some t \<Rightarrow>
          if t \<noteq> HEADER_MIN_LENGTH + len d then (HEADER_MIN_LENGTH + len d, True)
          else (t, False))"

text \<open>
  \<open>MessageHeader.__init__(total_length, window_size, package_num, max_msg_size, data)\<close>,
  with its checks in the order of the source. Each failed check raises \<open>ValueError\<close>.
\<close>

definition MessageHeader_init ::
  "int option \<Rightarrow> int \<Rightarrow> int \<Rightarrow> int \<Rightarrow> bytes \<Rightarrow> error + MessageHeader" where
  "MessageHeader_init tl_arg ws pn mms d =
     (let tl = fst (fix_total_length tl_arg d);
          m = (if DEFAULT_MAX_MSG_SIZE \<ge> mms \<and> mms > 0 then mms else DEFAULT_MAX_MSG_SIZE)
      in if \<not> (HEADER_MIN_LENGTH \<le> tl \<and> tl \<le> m) then Inl ValueError
         else if ws < 1 \<or> ws > DEFAULT_MAX_WINDOW_SIZE then Inl ValueError
         else if pn < 0 \<or> pn \<ge> 2 * ws then Inl ValueError
         else if len d > m - HEADER_MIN_LENGTH then Inl ValueError
         else Inr \<lparr>total_length = tl, max_msg_size = m, actual_window_size = ws,
                   window_size = ws - 1, package_num = pn, data = d\<rparr>)"

text \<open>Whether the constructor emits its length-mismatch warning on these arguments.\<close>

definition MessageHeader_init_warns :: "int option \<Rightarrow> bytes \<Rightarrow> bool" where
  "MessageHeader_init_warns tl_arg d = snd (fix_total_length tl_arg d)"

text \<open>\<open>MessageHeader.pack\<close>: \<open>struct.pack('!HHBB', ...) + self.data\<close>.\<close>

definition MessageHeader_pack :: "MessageHeader \<Rightarrow> error + bytes" where
  "MessageHeader_pack h =
     (case pack_H (total_length h) of Inl e \<Rightarrow> Inl e | Inr b1 \<Rightarrow>
       (case pack_H (max_msg_size h) of Inl e \<Rightarrow> Inl e | Inr b2 \<Rightarrow>
         (case pack_B (window_size h) of Inl e \<Rightarrow> Inl e | Inr b3 \<Rightarrow>
           (case pack_B (package_num h) of Inl e \<Rightarrow> Inl e | Inr b4 \<Rightarrow>
              Inr (b1 @ b2 @ b3 @ b4 @ data h)))))"

text \<open>
  \<open>MessageHeader.unpack\<close>: fewer than six bytes raise \<open>ValueError\<close>; otherwise the
  six header bytes are read and the constructor is called with the window size plus
  one and with the rest of the input as the payload.
\<close>

fun MessageHeader_unpack :: "bytes \<Rightarrow> error + MessageHeader" where
  "MessageHeader_unpack (t1 # t0 # m1 # m0 # w # p # rest) =
     MessageHeader_init (Some (unpack_H t1 t0)) (unpack_B w + 1) (unpack_B p)
       (unpack_H m1 m0) rest"
| "MessageHeader_unpack _ = Inl ValueError"

text \<open>\<open>unpack_total_message_size\<close>: the first two bytes of a buffer of at least six.\<close>

fun unpack_total_message_size :: "bytes \<Rightarrow> error + int" where
  "unpack_total_message_size (t1 # t0 # m1 # m0 # w # p # rest) = Inr (unpack_H t1 t0)"
| "unpack_total_message_size _ = Inl ValueError"

section \<open>API.py: the acknowledgement\<close>

record AckHeader =
  ack_max_msg_size :: int
  ack_number :: int

text \<open>\<open>AckHeader.__init__(ack_number, max_msg_size)\<close>: the size is checked first.\<close>

definition AckHeader_init :: "int \<Rightarrow> int \<Rightarrow> error + AckHeader" where
  "AckHeader_init an mms =
     (if mms < 0 \<or> mms \<ge> 2 ^ 16 then Inl ValueError
      else if an < 0 \<or> an \<ge> 2 ^ 8 then Inl ValueError
      else Inr \<lparr>ack_max_msg_size = mms, ack_number = an\<rparr>)"

definition AckHeader_pack :: "AckHeader \<Rightarrow> error + bytes" where
  "AckHeader_pack a =
     (case pack_H (ack_max_msg_size a) of Inl e \<Rightarrow> Inl e | Inr b1 \<Rightarrow>
       (case pack_B (ack_number a) of Inl e \<Rightarrow> Inl e | Inr b2 \<Rightarrow> Inr (b1 @ b2)))"

fun AckHeader_unpack :: "bytes \<Rightarrow> error + AckHeader" where
  "AckHeader_unpack [m1, m0, a] = AckHeader_init (unpack_B a) (unpack_H m1 m0)"
| "AckHeader_unpack _ = Inl ValueError"

subsection \<open>The text codec: \<open>str.encode('utf-8')\<close> and \<open>bytes.decode('utf-8')\<close>\<close>

text \<open>
  Python's strict UTF-8 codec on code points. Encoding raises for a lone surrogate;
  decoding raises for a malformed, overlong or out-of-range sequence.
\<close>

definition encode_char :: "nat \<Rightarrow> bytes option" where
  "encode_char c =
     (if c < 0x80 then Some [of_nat c]
      else if c < 0x800 then Some [of_nat (0xC0 + c div 64), of_nat (0x80 + c mod 64)]
      else if c < 0x10000 then
        (if 0xD800 \<le> c \<and> c \<le> 0xDFFF then None
         else Some [of_nat (0xE0 + c div 4096), of_nat (0x80 + (c div 64) mod 64),
                    of_nat (0x80 + c mod 64)])
      else if c < 0x110000 then
        Some [of_nat (0xF0 + c div 262144), of_nat (0x80 + (c div 4096) mod 64),
              of_nat (0x80 + (c div 64) mod 64), of_nat (0x80 + c mod 64)]
      else None)"

fun encode :: "pystr \<Rightarrow> error + bytes" where
  "encode [] = Inr []"
| "encode (c # cs) =
     (case encode_char c of
        None \<Rightarrow> Inl UnicodeEncodeError
      | Some bs \<Rightarrow> (case encode cs of Inl e \<Rightarrow> Inl e | Inr rest \<Rightarrow> Inr (bs @ rest)))"

definition in_range :: "nat \<Rightarrow> nat \<Rightarrow> byte \<Rightarrow> bool" where
  "in_range lo hi b = (lo \<le> unat b \<and> unat b \<le> hi)"

definition cons_char :: "nat \<Rightarrow> pystr option \<Rightarrow> pystr option" where
  "cons_char c r = (case r of None \<Rightarrow> None | Some cs \<Rightarrow> Some (c # cs))"

fun decode :: "bytes \<Rightarrow> pystr option" where
  "decode [] = Some []"
| "decode [b0] = (if unat b0 < 0x80 then Some [unat b0] else None)"
| "decode [b0, b1] =
     (if unat b0 < 0x80 then cons_char (unat b0) (decode [b1])
      else if in_range 0xC2 0xDF b0 \<and> in_range 0x80 0xBF b1
        then Some [(unat b0 - 0xC0) * 64 + (unat b1 - 0x80)]
      else None)"
| "decode [b0, b1, b2] =
     (if unat b0 < 0x80 then cons_char (unat b0) (decode [b1, b2])
      else if in_range 0xC2 0xDF b0 \<and> in_range 0x80 0xBF b1
        then cons_char ((unat b0 - 0xC0) * 64 + (unat b1 - 0x80)) (decode [b2])
      else if in_range 0xE0 0xEF b0
          \<and> in_range (if unat b0 = 0xE0 then 0xA0 else 0x80)
                      (if unat b0 = 0xED then 0x9F else 0xBF) b1
          \<and> in_range 0x80 0xBF b2
        then Some [(unat b0 - 0xE0) * 4096 + (unat b1 - 0x80) * 64 + (unat b2 - 0x80)]
      else None)"
| "decode (b0 # b1 # b2 # b3 # rest) =
     (if unat b0 < 0x80 then cons_char (unat b0) (decode (b1 # b2 # b3 # rest))
      else if in_range 0xC2 0xDF b0 \<and> in_range 0x80 0xBF b1
        then cons_char ((unat b0 - 0xC0) * 64 + (unat b1 - 0x80)) (decode (b2 # b3 # rest))
      else if in_range 0xE0 0xEF b0
          \<and> in_range (if unat b0 = 0xE0 then 0xA0 else 0x80)
                      (if unat b0 = 0xED then 0x9F else 0xBF) b1
          \<and> in_range 0x80 0xBF b2
        then cons_char ((unat b0 - 0xE0) * 4096 + (unat b1 - 0x80) * 64 + (unat b2 - 0x80))
               (decode (b3 # rest))
      else if in_range 0xF0 0xF4 b0
          \<and> in_range (if unat b0 = 0xF0 then 0x90 else 0x80)
                      (if unat b0 = 0xF4 then 0x8F else 0xBF) b1
          \<and> in_range 0x80 0xBF b2 \<and> in_range 0x80 0xBF b3
        then cons_char ((unat b0 - 0xF0) * 262144 + (unat b1 - 0x80) * 4096
                        + (unat b2 - 0x80) * 64 + (unat b3 - 0x80)) (decode rest)
      else None)"

text \<open>
  \<open>data_to_message\<close>: the payload decoded as text; every failure is re-raised as
  \<open>ValueError\<close>.
\<close>

definition data_to_message :: "MessageHeader \<Rightarrow> error + pystr" where
  "data_to_message header =
     (case decode (data header) of None \<Rightarrow> Inl ValueError | Some message_str \<Rightarrow> Inr message_str)"

section \<open>Server.py: the framer\<close>

text \<open>Python's slice \<open>data[n:]\<close>; a negative \<open>n\<close> counts from the end.\<close>

definition slice_from :: "'a list \<Rightarrow> int \<Rightarrow> 'a list" where
  "slice_from xs n = (if 0 \<le> n then drop (nat n) xs else drop (nat (len xs + n)) xs)"

text \<open>
  The \<open>for byte in data\<close> loop of \<open>separate_requests\<close>. The loop runs over the
  bytes of the buffer it was started on, while the variable \<open>data\<close> is re-bound to
  the remainder at every message boundary; the state is \<open>separated\<close>, \<open>counter\<close>,
  \<open>index\<close>, the re-bound \<open>data\<close> and \<open>total_length_of_package\<close>. \<open>index\<close> is
  always the last position of \<open>separated\<close>.
\<close>

fun separate_loop ::
  "bytes \<Rightarrow> bytes list \<Rightarrow> int \<Rightarrow> nat \<Rightarrow> bytes \<Rightarrow> int \<Rightarrow> error + bytes list" where
  "separate_loop [] separated counter index d total_len = Inr separated"
| "separate_loop (byte # rest) separated counter index d total_len =
     (if counter < total_len then
        separate_loop rest (separated[index := separated ! index @ [byte]])
          (counter + 1) index d total_len
      else
        (let d' = slice_from d total_len;
             separated' = separated @ [[]]
         in case (if len d' > 0 then unpack_total_message_size d' else Inr total_len) of
              Inl e \<Rightarrow> Inl e
            | Inr total_len' \<Rightarrow>
                separate_loop rest
                  (separated'[index + 1 := separated' ! (index + 1) @ [byte]])
                  1 (index + 1) d' total_len'))"

definition separate_requests :: "bytes \<Rightarrow> error + bytes list" where
  "separate_requests d =
     (case unpack_total_message_size d of
        Inl e \<Rightarrow> Inl e
      | Inr total_length_of_package \<Rightarrow>
          if len d > total_length_of_package
          then separate_loop d [[]] 0 0 d total_length_of_package
          else Inr [d])"

text \<open>
  A complete message: at least six bytes, whose length prefix is the number of its
  own bytes.
\<close>

definition complete_message :: "bytes \<Rightarrow> bool" where
  "complete_message m = (unpack_total_message_size m = Inr (len m))"

section \<open>Server.py: the receiver\<close>

text \<open>The per-connection fields of \<open>local_thread\<close>.\<close>

record local_thread =
  decided_size :: bool
  max_message_length :: int
  lt_window_size :: int
  last_acked :: int
  message :: pystr
  buffer :: "MessageHeader list"

text \<open>The state \<open>client_handler\<close> sets up before its first read.\<close>

definition initial_thread :: local_thread where
  "initial_thread =
     \<lparr>decided_size = False, max_message_length = 2 ^ 16 - 1, lt_window_size = - 1,
      last_acked = - 1, message = [], buffer = []\<rparr>"

text \<open>
  The insertion loop of \<open>buffer_request\<close>, with the final append when the loop
  placed nothing: the request goes before the first buffered package it is
  ``smaller'' than, and is dropped when its number is met first.
\<close>

fun insert_request ::
  "int \<Rightarrow> int \<Rightarrow> MessageHeader \<Rightarrow> MessageHeader list \<Rightarrow> MessageHeader list" where
  "insert_request la ws request [] = [request]"
| "insert_request la ws request (package # rest) =
     (let request_number = package_num request; package_number = package_num package in
      if request_number = package_number then package # rest
      else if 0 \<le> la \<and> la < ws then
        (if la < request_number \<and> request_number < package_number
         then request # package # rest
         else package # insert_request la ws request rest)
      else
        (if (la < request_number \<and> request_number < package_number)
            \<or> (package_number < la \<and> la < request_number)
            \<or> (request_number < package_number \<and> package_number < la)
         then request # package # rest
         else package # insert_request la ws request rest))"

definition buffer_request :: "local_thread \<Rightarrow> MessageHeader \<Rightarrow> local_thread" where
  "buffer_request lt request =
     (let request_number = package_num request in
      if (last_acked lt - lt_window_size lt < request_number \<and> request_number \<le> last_acked lt)
         \<or> (last_acked lt + lt_window_size lt \<le> request_number)
      then lt
      else lt\<lparr>buffer := insert_request (last_acked lt) (lt_window_size lt) request (buffer lt)\<rparr>)"

text \<open>
  What \<open>local_thread.buffer.remove(package)\<close> does inside the loop below.
  \<open>list.remove\<close> takes out the first element equal to its argument, and
  \<open>MessageHeader\<close> defines no \<open>__eq__\<close>, so equal means the same object. Every
  buffered request is an object of its own (one per unpacked slice), and the visited
  package is the element at the iterator's position: that element is the one removed.
\<close>

definition remove_at :: "nat \<Rightarrow> 'a list \<Rightarrow> 'a list" where
  "remove_at i xs = take i xs @ drop (Suc i) xs"

text \<open>
  The \<open>for package in local_thread.buffer\<close> loop of \<open>process_request\<close>. Python's
  list iterator keeps a position \<open>i\<close> into the list as it is at each step, and the
  body removes the current package from that same list. The result is the state and
  the exception raised, if any; \<open>%\<close> by zero raises.
\<close>

function drain :: "nat \<Rightarrow> local_thread \<Rightarrow> local_thread \<times> error option" where
  "drain i lt =
     (if i < length (buffer lt) then
        (let package = buffer lt ! i; package_number = package_num package in
         if 2 * lt_window_size lt = 0 then (lt, Some ZeroDivisionError)
         else if package_number = (last_acked lt + 1) mod (2 * lt_window_size lt) then
           (let lt1 = lt\<lparr>buffer := remove_at i (buffer lt)\<rparr> in
            case data_to_message package of
              Inl e \<Rightarrow> (lt1, Some e)
            | Inr msg_str \<Rightarrow>
                drain (i + 1) (lt1\<lparr>message := message lt1 @ msg_str, last_acked := package_number\<rparr>))
         else (lt, None))
      else (lt, None))"
  by pat_completeness auto
termination
  by (relation "measure (\<lambda>(i, lt). length (buffer lt) - i)")
     (auto simp: remove_at_def)

declare drain.simps [simp del]

text \<open>
  \<open>process_request\<close>. \<open>policy\<close> is what the operator's console or file gives for the
  maximum message size when the first request asks for it: \<open>None\<close> when reading or
  parsing it raises.
\<close>

definition process_request ::
  "local_thread \<Rightarrow> int option \<Rightarrow> MessageHeader \<Rightarrow> local_thread \<times> (error + AckHeader)" where
  "process_request lt policy request =
     (case (if \<not> decided_size lt then
              (case policy of
                 None \<Rightarrow> Inl ValueError
               | Some max_len \<Rightarrow>
                   Inr (lt\<lparr>max_message_length := max_len, decided_size := True,
                           lt_window_size := window_size request + 1\<rparr>))
            else Inr lt) of
        Inl e \<Rightarrow> (lt, Inl e)
      | Inr lt1 \<Rightarrow>
          (let lt2 = buffer_request lt1 request in
           case (if len (buffer lt2) > 0 then drain 0 lt2 else (lt2, None)) of
             (lt3, Some e) \<Rightarrow> (lt3, Inl e)
           | (lt3, None) \<Rightarrow> (lt3, AckHeader_init (last_acked lt3) (max_message_length lt3))))"

text \<open>
  The \<open>for request in requests\<close> loop of \<open>client_handler\<close>: the last response is
  kept, and an exception leaves the loop.
\<close>

fun process_requests ::
  "local_thread \<Rightarrow> int option \<Rightarrow> MessageHeader list \<Rightarrow> AckHeader option
     \<Rightarrow> local_thread \<times> (error + AckHeader option)" where
  "process_requests lt policy [] response = (lt, Inr response)"
| "process_requests lt policy (request # requests) response =
     (case process_request lt policy request of
        (lt', Inl e) \<Rightarrow> (lt', Inl e)
      | (lt', Inr r) \<Rightarrow> process_requests lt' policy requests (Some r))"

text \<open>The unpacking loop: the first failure abandons the whole list.\<close>

fun unpack_requests :: "bytes list \<Rightarrow> error + MessageHeader list" where
  "unpack_requests [] = Inr []"
| "unpack_requests (separate # separated) =
     (case MessageHeader_unpack separate of
        Inl e \<Rightarrow> Inl e
      | Inr request \<Rightarrow>
          (case unpack_requests separated of
             Inl e \<Rightarrow> Inl e
           | Inr requests \<Rightarrow> Inr (request # requests)))"

text \<open>
  One pass of the \<open>while True\<close> loop of \<open>client_handler\<close> on a non-empty read: the
  new state and the bytes sent to the client, \<open>None\<close> when the pass ends in the
  \<open>except\<close> branch and sends nothing.
\<close>

definition client_handler_read ::
  "local_thread \<Rightarrow> int option \<Rightarrow> bytes \<Rightarrow> local_thread \<times> bytes option" where
  "client_handler_read lt policy d =
     (case separate_requests d of
        Inl e \<Rightarrow> (lt, None)
      | Inr separated \<Rightarrow>
          (case unpack_requests separated of
             Inl e \<Rightarrow> (lt, None)
           | Inr requests \<Rightarrow>
               (case process_requests lt policy requests None of
                  (lt', Inl e) \<Rightarrow> (lt', None)
                | (lt', Inr None) \<Rightarrow> (lt', None)
                | (lt', Inr (Some response)) \<Rightarrow>
                    (case AckHeader_pack response of
                       Inl e \<Rightarrow> (lt', None)
                     | Inr packed \<Rightarrow> (lt', Some packed)))))"

text \<open>
  The \<open>while True\<close> loop of \<open>client_handler\<close> over the successive results of
  \<open>recv\<close>: an empty read ends the loop; the result is the final state and what each
  pass sent.
\<close>

fun client_handler_reads ::
  "local_thread \<Rightarrow> int option \<Rightarrow> bytes list \<Rightarrow> local_thread \<times> bytes option list" where
  "client_handler_reads lt policy [] = (lt, [])"
| "client_handler_reads lt policy ([] # reads) = (lt, [])"
| "client_handler_reads lt policy (d # reads) =
     (case client_handler_read lt policy d of
        (lt', response) \<Rightarrow>
          (case client_handler_reads lt' policy reads of
             (lt'', responses) \<Rightarrow> (lt'', response # responses)))"

section \<open>Client.py: the sender\<close>

text \<open>
  \<open>divide_msg\<close>: the loop over the characters of the message; \<open>index\<close> is always
  the last position of \<open>divided_msgs\<close>.
\<close>

fun divide_loop :: "'a list \<Rightarrow> 'a list list \<Rightarrow> nat \<Rightarrow> int \<Rightarrow> 'a list list" where
  "divide_loop [] divided index max_size = divided"
| "divide_loop (ch # rest) divided index max_size =
     (if len (divided ! index) < max_size
      then divide_loop rest (divided[index := divided ! index @ [ch]]) index max_size
      else divide_loop rest (divided @ [[ch]]) (index + 1) max_size)"

definition divide_msg :: "'a list \<Rightarrow> int \<Rightarrow> 'a list list" where
  "divide_msg msg max_size = divide_loop msg [[]] 0 max_size"

text \<open>
  The sender's variables in \<open>client\<close>, with the bytes written to the socket so far
  (\<open>sent\<close>). Time stamps are values of any type \<open>'t\<close>.
\<close>

record 't sender =
  divided_msgs :: "pystr list"
  sliding_window :: "MessageHeader list"
  package_number :: int
  first_msg_sent :: 't
  sent :: "bytes list"

text \<open>
  The first block of the sending loop: when the window has room and a chunk is left,
  the next package is numbered, built, appended to the window and sent. \<open>do_send\<close> is
  False when \<open>send_out_of_order\<close> holds the package back. An exception ends
  \<open>client\<close>.
\<close>

definition send_next :: "int \<Rightarrow> bool \<Rightarrow> 't sender \<Rightarrow> error + 't sender" where
  "send_next ws do_send s =
     (case divided_msgs s of
        [] \<Rightarrow> Inr s
      | chunk # chunks \<Rightarrow>
          if len (sliding_window s) < ws then
            (let pn = (package_number s + 1) mod (2 * ws) in
             case encode chunk of
               Inl e \<Rightarrow> Inl e
             | Inr msg_part \<Rightarrow>
                 (case MessageHeader_init (Some (HEADER_MIN_LENGTH + len msg_part)) ws pn (- 1)
                         msg_part of
                    Inl e \<Rightarrow> Inl e
                  | Inr package \<Rightarrow>
                      (let s1 = s\<lparr>divided_msgs := chunks,
                                   sliding_window := sliding_window s @ [package],
                                   package_number := pn\<rparr>
                       in if do_send then
                            (case MessageHeader_pack package of
                               Inl e \<Rightarrow> Inl e
                             | Inr packed \<Rightarrow> Inr (s1\<lparr>sent := sent s1 @ [packed]\<rparr>))
                          else Inr s1)))
          else Inr s)"

text \<open>
  A segment object as the constructor returns it: building it again from its own
  attributes gives the same object.
\<close>

definition constructed :: "MessageHeader \<Rightarrow> bool" where
  "constructed h =
     (MessageHeader_init None (actual_window_size h) (package_num h) (max_msg_size h) (data h)
        = Inr h)"

text \<open>The resend loop of the timeout branch: every package of the window, in order.\<close>

fun resend :: "MessageHeader list \<Rightarrow> bytes list \<Rightarrow> error + bytes list" where
  "resend [] out = Inr out"
| "resend (package # rest) out =
     (case MessageHeader_pack package of
        Inl e \<Rightarrow> Inl e
      | Inr packed \<Rightarrow> resend rest (out @ [packed]))"

text \<open>
  The \<open>except socket.timeout\<close> branch at time \<open>now\<close>: the clock is reset, then the
  window is resent.
\<close>

definition on_timeout :: "'t \<Rightarrow> 't sender \<Rightarrow> error + 't sender" where
  "on_timeout now s =
     (let s1 = s\<lparr>first_msg_sent := now\<rparr> in
      case resend (sliding_window s1) (sent s1) of
        Inl e \<Rightarrow> Inl e
      | Inr out \<Rightarrow> Inr (s1\<lparr>sent := out\<rparr>))"

section \<open>Properties of the codec\<close>

lemma unpack_H_pack_H:
  assumes "0 \<le> n" "n < 65536"
  shows "unpack_H (word_of_int (n div 256)) (word_of_int (n mod 256)) = n"
proof -
  have d: "0 \<le> n div 256" "n div 256 < 256" using assms by auto
  have m: "0 \<le> n mod 256" "n mod 256 < 256" by auto
  have "uint (word_of_int (n div 256) :: byte) = n div 256"
    using d by (simp add: uint_word_of_int take_bit_eq_mod)
  moreover have "uint (word_of_int (n mod 256) :: byte) = n mod 256"
    using m by (simp add: uint_word_of_int take_bit_eq_mod)
  ultimately show ?thesis by (simp add: unpack_H_def)
qed

lemma unpack_B_pack_B:
  assumes "0 \<le> n" "n < 256"
  shows "unpack_B (word_of_int n) = n"
  using assms by (simp add: unpack_B_def uint_word_of_int take_bit_eq_mod)

lemma fst_fix_total_length: "fst (fix_total_length t d) = HEADER_MIN_LENGTH + len d"
  by (simp add: fix_total_length_def split: option.split)

lemma MessageHeader_init_None: "MessageHeader_init (Some t) ws pn mms d = MessageHeader_init None ws pn mms d"
  by (simp add: MessageHeader_init_def fst_fix_total_length)

lemma MessageHeader_init_fields:
  assumes "MessageHeader_init t ws pn mms d = Inr h"
  shows "total_length h = 6 + len d" "data h = d" "package_num h = pn"
    "actual_window_size h = ws" "window_size h = ws - 1"
    "1 \<le> ws" "ws \<le> 128" "0 \<le> pn" "pn < 2 * ws"
    "0 < max_msg_size h" "max_msg_size h \<le> 65531" "6 + len d \<le> max_msg_size h"
    "max_msg_size h = (if mms \<le> 65531 \<and> 0 < mms then mms else 65531)"
  using assms
  by (auto simp: MessageHeader_init_def fst_fix_total_length Let_def HEADER_MIN_LENGTH_def
      DEFAULT_MAX_MSG_SIZE_def DEFAULT_HEADER_MAX_LENGTH_def DEFAULT_MAX_WINDOW_SIZE_def
      split: if_splits)

lemma MessageHeader_init_again:
  assumes "MessageHeader_init t ws pn mms d = Inr h"
  shows "MessageHeader_init t' (actual_window_size h) (package_num h) (max_msg_size h) (data h) = Inr h"
  using assms
  by (auto simp: MessageHeader_init_def fst_fix_total_length Let_def HEADER_MIN_LENGTH_def
      DEFAULT_MAX_MSG_SIZE_def DEFAULT_HEADER_MAX_LENGTH_def DEFAULT_MAX_WINDOW_SIZE_def
      split: if_splits)

lemma MessageHeader_round_trip:
  assumes "MessageHeader_init t ws pn mms d = Inr h"
  shows "\<exists>b. MessageHeader_pack h = Inr b \<and> MessageHeader_unpack b = Inr h"
proof -
  note f = MessageHeader_init_fields [OF assms]
  let ?tl = "total_length h" and ?m = "max_msg_size h"
  have tl: "0 \<le> ?tl" "?tl < 65536" using f by (auto simp: len_def)
  have m: "0 \<le> ?m" "?m < 65536" using f by auto
  define e where "e = ws - 1"
  have w: "0 \<le> e" "e < 256" "window_size h = e" "e + 1 = ws"
    using f by (auto simp: e_def)
  have p: "0 \<le> pn" "pn < 256" using f by auto
  let ?b = "[word_of_int (?tl div 256), word_of_int (?tl mod 256),
             word_of_int (?m div 256), word_of_int (?m mod 256),
             word_of_int e, word_of_int pn] @ d"
  have "MessageHeader_pack h = Inr ?b"
    using tl m w p f(2,3) by (simp add: MessageHeader_pack_def pack_H_def pack_B_def)
  moreover have "MessageHeader_unpack ?b = MessageHeader_init (Some ?tl) ws pn ?m d"
    using tl m w p by (simp add: unpack_H_pack_H unpack_B_pack_B)
  moreover have "MessageHeader_init (Some ?tl) ws pn ?m d = Inr h"
    using MessageHeader_init_again [OF assms, of "Some ?tl"] f by simp
  ultimately show ?thesis by simp
qed

lemma AckHeader_round_trip:
  assumes "AckHeader_init an mms = Inr a"
  shows "\<exists>b. AckHeader_pack a = Inr b \<and> AckHeader_unpack b = Inr a"
proof -
  have r: "0 \<le> mms" "mms < 65536" "0 \<le> an" "an < 256"
    and a: "a = \<lparr>ack_max_msg_size = mms, ack_number = an\<rparr>"
    using assms by (auto simp: AckHeader_init_def split: if_splits)
  let ?b = "[word_of_int (mms div 256), word_of_int (mms mod 256), word_of_int an] :: bytes"
  have "AckHeader_pack a = Inr ?b"
    using r a by (simp add: AckHeader_pack_def pack_H_def pack_B_def)
  moreover have "AckHeader_unpack ?b = Inr a"
    using r a by (simp add: unpack_H_pack_H unpack_B_pack_B AckHeader_init_def)
  ultimately show ?thesis by simp
qed

lemma MessageHeader_unpack_shape:
  assumes "MessageHeader_unpack b = Inr h"
  shows "total_length h = len b \<and> data h = drop 6 b"
proof -
  obtain t1 t0 m1 m0 w p rest where b: "b = t1 # t0 # m1 # m0 # w # p # rest"
    using assms by (cases b rule: MessageHeader_unpack.cases) auto
  from assms b have "MessageHeader_init (Some (unpack_H t1 t0)) (unpack_B w + 1) (unpack_B p)
       (unpack_H m1 m0) rest = Inr h" by simp
  from MessageHeader_init_fields(1,2) [OF this] show ?thesis by (simp add: b len_def)
qed

lemma MessageHeader_unpack_prefix:
  "MessageHeader_unpack (x # y # rest) = MessageHeader_unpack (x' # y' # rest)"
  by (cases "(x # y # rest)" rule: MessageHeader_unpack.cases)
     (auto simp: MessageHeader_init_None)

text \<open>
  Claim C3 (codec round trip). Every data segment the constructor accepts (window size
  1..128, package number below twice the window size, payload within the maximum
  message size less the six header bytes) packs without error, and unpacking the
  packed bytes gives back the same segment, field by field; the same holds for every
  acknowledgement the constructor accepts (size 0..65535, number 0..255).
\<close>

theorem codec_round_trip:
  "(MessageHeader_init t ws pn mms d = Inr h \<longrightarrow>
      (\<exists>b. MessageHeader_pack h = Inr b \<and> MessageHeader_unpack b = Inr h))
   \<and> (AckHeader_init an am = Inr a \<longrightarrow>
      (\<exists>b. AckHeader_pack a = Inr b \<and> AckHeader_unpack b = Inr a))"
  using MessageHeader_round_trip AckHeader_round_trip by blast

theorem codec_round_trip_witness:
  "MessageHeader_init None 4 2 (- 1) [98] =
     Inr \<lparr>total_length = 7, max_msg_size = 65531, actual_window_size = 4,
          window_size = 3, package_num = 2, data = [98]\<rparr>
   \<and> (\<exists>b. MessageHeader_pack \<lparr>total_length = 7, max_msg_size = 65531,
              actual_window_size = 4, window_size = 3, package_num = 2, data = [98]\<rparr> = Inr b
          \<and> MessageHeader_unpack b =
              Inr \<lparr>total_length = 7, max_msg_size = 65531, actual_window_size = 4,
                   window_size = 3, package_num = 2, data = [98]\<rparr>)
   \<and> AckHeader_init 3 1000 = Inr \<lparr>ack_max_msg_size = 1000, ack_number = 3\<rparr>
   \<and> (\<exists>b. AckHeader_pack \<lparr>ack_max_msg_size = 1000, ack_number = 3\<rparr> = Inr b
          \<and> AckHeader_unpack b = Inr \<lparr>ack_max_msg_size = 1000, ack_number = 3\<rparr>)"
proof -
  let ?h = "\<lparr>total_length = 7, max_msg_size = 65531, actual_window_size = 4,
             window_size = 3, package_num = 2, data = [98]\<rparr>"
  let ?a = "\<lparr>ack_max_msg_size = 1000, ack_number = 3\<rparr>"
  have h: "MessageHeader_init None 4 2 (- 1) [98] = Inr ?h"
    by (simp add: MessageHeader_init_def fix_total_length_def len_def HEADER_MIN_LENGTH_def
        DEFAULT_MAX_MSG_SIZE_def DEFAULT_HEADER_MAX_LENGTH_def DEFAULT_MAX_WINDOW_SIZE_def)
  have a: "AckHeader_init 3 1000 = Inr ?a"
    by (simp add: AckHeader_init_def)
  show ?thesis
    using codec_round_trip [of None 4 2 "- 1" "[98]" ?h 3 1000 ?a] h a by simp
qed

text \<open>
  Claim C10 (the wire total length is ignored). When unpacking succeeds, the stored
  total length is the number of bytes given and the payload is everything after the
  sixth byte; the two length bytes of the input have no influence on the result, and a
  length handed to the constructor never changes what it returns: a disagreement is
  repaired with a warning, never raised.
\<close>

theorem unpack_ignores_wire_length:
  "(MessageHeader_unpack b = Inr h \<longrightarrow> total_length h = len b \<and> data h = drop 6 b)
   \<and> MessageHeader_unpack (x # y # rest) = MessageHeader_unpack (x' # y' # rest)
   \<and> MessageHeader_init (Some n) ws pn mms d = MessageHeader_init None ws pn mms d
   \<and> MessageHeader_init_warns (Some n) d = (n \<noteq> HEADER_MIN_LENGTH + len d)"
proof -
  have "MessageHeader_init_warns (Some n) d = (n \<noteq> HEADER_MIN_LENGTH + len d)"
    by (simp add: MessageHeader_init_warns_def fix_total_length_def)
  then show ?thesis
    using MessageHeader_unpack_shape MessageHeader_unpack_prefix MessageHeader_init_None
    by blast
qed

theorem unpack_ignores_wire_length_witness:
  "MessageHeader_unpack [0, 99, 0, 0, 3, 2, 98] =
     Inr \<lparr>total_length = 7, max_msg_size = 65531, actual_window_size = 4,
          window_size = 3, package_num = 2, data = [98]\<rparr>
   \<and> total_length \<lparr>total_length = 7, max_msg_size = 65531, actual_window_size = 4,
          window_size = 3, package_num = 2, data = [98]\<rparr> = len [0, 99, 0, 0, 3, 2, 98 :: byte]
   \<and> data \<lparr>total_length = 7, max_msg_size = 65531, actual_window_size = 4,
          window_size = 3, package_num = 2, data = [98]\<rparr> = drop 6 [0, 99, 0, 0, 3, 2, 98]"
proof -
  let ?h = "\<lparr>total_length = 7, max_msg_size = 65531, actual_window_size = 4,
             window_size = 3, package_num = 2, data = [98]\<rparr>"
  have u: "MessageHeader_unpack [0, 99, 0, 0, 3, 2, 98] = Inr ?h"
    by (simp add: MessageHeader_init_def fix_total_length_def len_def HEADER_MIN_LENGTH_def
        DEFAULT_MAX_MSG_SIZE_def DEFAULT_HEADER_MAX_LENGTH_def DEFAULT_MAX_WINDOW_SIZE_def
        unpack_H_def unpack_B_def)
  show ?thesis
    using unpack_ignores_wire_length [of "[0, 99, 0, 0, 3, 2, 98]" ?h] u by simp
qed

lemma unpack_total_message_size_append:
  "unpack_total_message_size m = Inr t \<Longrightarrow> unpack_total_message_size (m @ x) = Inr t"
  by (cases m rule: unpack_total_message_size.cases) auto

lemma unpack_total_message_size_nonempty:
  "unpack_total_message_size m = Inr t \<Longrightarrow> m \<noteq> []"
  by auto

lemma update_last: "(acc @ [x])[length acc := y] = acc @ [y]"
  by (simp add: list_update_append)

lemma nth_last: "(acc @ [x]) ! length acc = x"
  by (simp add: nth_append)

lemma separate_loop_fill:
  "len pre + len suf \<le> t \<Longrightarrow>
   separate_loop (suf @ rest) (acc @ [pre]) (len pre) (length acc) d t =
   separate_loop rest (acc @ [pre @ suf]) (len (pre @ suf)) (length acc) d t"
proof (induction suf arbitrary: pre)
  case Nil
  then show ?case by simp
next
  case (Cons b suf)
  have lt: "len pre < t" using Cons.prems by (simp add: len_def)
  have nxt: "len (pre @ [b]) + len suf \<le> t" using Cons.prems by (simp add: len_def)
  have "separate_loop ((b # suf) @ rest) (acc @ [pre]) (len pre) (length acc) d t =
        separate_loop (suf @ rest) (acc @ [pre @ [b]]) (len (pre @ [b])) (length acc) d t"
    using lt update_last [of acc pre "pre @ [b]"] nth_last [of acc pre]
    by (simp add: len_def add.commute)
  also have "\<dots> = separate_loop rest (acc @ [(pre @ [b]) @ suf]) (len ((pre @ [b]) @ suf))
                     (length acc) d t"
    by (rule Cons.IH [OF nxt])
  finally show ?case by simp
qed

lemma separate_loop_boundary_step:
  assumes "slice_from d t0 = d'" and "d' \<noteq> []" and "unpack_total_message_size d' = Inr t"
    and "\<not> counter < t0"
  shows "separate_loop (b # xs) (acc @ [cur]) counter (length acc) d t0 =
         separate_loop xs ((acc @ [cur]) @ [[b]]) 1 (Suc (length acc)) d' t"
proof -
  have u: "((acc @ [cur]) @ [[]])[length (acc @ [cur]) := ((acc @ [cur]) @ [[]]) ! length (acc @ [cur]) @ [b]]
           = (acc @ [cur]) @ [[b]]"
    unfolding nth_last update_last by simp
  have pos: "len d' > 0" using assms(2) by (cases d') (auto simp: len_def)
  show ?thesis
    using assms(1,3,4) pos u by (simp add: Let_def)
qed

lemma separate_loop_boundary:
  assumes "unpack_total_message_size (p @ rest) = Inr t" and "p = b # p'" and "len p \<le> t"
  shows "separate_loop (p @ rest) (acc @ [cur]) (len cur) (length acc) (cur @ p @ rest) (len cur) =
         separate_loop rest (acc @ [cur] @ [p]) (len p) (Suc (length acc)) (p @ rest) t"
proof -
  have sl: "slice_from (cur @ p @ rest) (len cur) = p @ rest"
    by (simp add: slice_from_def len_def)
  have ne: "p @ rest \<noteq> []" using assms(2) by simp
  have "separate_loop (b # (p' @ rest)) (acc @ [cur]) (len cur) (length acc) (cur @ p @ rest) (len cur) =
        separate_loop (p' @ rest) ((acc @ [cur]) @ [[b]]) 1 (Suc (length acc)) (p @ rest) t"
    by (rule separate_loop_boundary_step [OF sl ne assms(1)]) simp
  also have "\<dots> = separate_loop (p' @ rest) ((acc @ [cur]) @ [[b]]) (len [b]) (length (acc @ [cur]))
          (p @ rest) t"
    by (simp add: len_def)
  also have "\<dots> = separate_loop rest ((acc @ [cur]) @ [[b] @ p']) (len ([b] @ p'))
                     (length (acc @ [cur])) (p @ rest) t"
    using assms(2,3) by (intro separate_loop_fill) (simp add: len_def)
  finally show ?thesis by (simp add: assms(2))
qed

lemma separate_loop_messages:
  assumes "list_all complete_message ms"
    and "unpack_total_message_size l = Inr t" and "len l \<le> t"
  shows "separate_loop (concat ms @ l) (acc @ [cur]) (len cur) (length acc)
           (cur @ concat ms @ l) (len cur) = Inr (acc @ [cur] @ ms @ [l])"
  using assms(1)
proof (induction ms arbitrary: acc cur)
  case Nil
  obtain b l' where l: "l = b # l'" using assms(2) by (cases l) auto
  have "separate_loop (l @ []) (acc @ [cur]) (len cur) (length acc) (cur @ l @ []) (len cur) =
        separate_loop [] (acc @ [cur] @ [l]) (len l) (Suc (length acc)) (l @ []) t"
    using assms(2,3) l by (intro separate_loop_boundary) auto
  then show ?case by simp
next
  case (Cons m ms)
  have ms: "list_all complete_message ms" using Cons.prems by simp
  have "complete_message m" using Cons.prems by simp
  then have m: "unpack_total_message_size m = Inr (len m)"
    by (simp add: complete_message_def)
  obtain b m' where mb: "m = b # m'" using m by (cases m) auto
  have "separate_loop (m @ concat ms @ l) (acc @ [cur]) (len cur) (length acc)
          (cur @ m @ concat ms @ l) (len cur) =
        separate_loop (concat ms @ l) (acc @ [cur] @ [m]) (len m) (Suc (length acc))
          (m @ concat ms @ l) (len m)"
    using unpack_total_message_size_append [OF m, of "concat ms @ l"] mb
    by (intro separate_loop_boundary) auto
  also have "\<dots> = Inr ((acc @ [cur]) @ [m] @ ms @ [l])"
    using Cons.IH [OF ms, of "acc @ [cur]" m] by simp
  finally show ?case by simp
qed

text \<open>
  Claim C4 (framer), as amended. A buffer made of complete messages followed by one
  last message of at least six bytes whose length prefix is at least the number of its
  bytes is split into exactly these messages, in order. The last message may declare
  its own length (the buffer is tiled exactly) or more bytes than remain: in both cases
  it is returned as the last slice, and nothing is raised.
\<close>

theorem separate_requests_frames:
  assumes "list_all complete_message ms"
    and "unpack_total_message_size l = Inr t" and "len l \<le> t"
  shows "separate_requests (concat ms @ l) = Inr (ms @ [l])"
proof (cases ms)
  case Nil
  then show ?thesis using assms(2,3) by (simp add: separate_requests_def)
next
  case (Cons m ms')
  have ms': "list_all complete_message ms'" using assms(1) Cons by simp
  have "complete_message m" using assms(1) Cons by simp
  then have m: "unpack_total_message_size m = Inr (len m)"
    by (simp add: complete_message_def)
  have l: "l \<noteq> []" using assms(2) by auto
  let ?d = "m @ concat ms' @ l"
  have tot: "unpack_total_message_size ?d = Inr (len m)"
    using m by (rule unpack_total_message_size_append)
  have longer: "len ?d > len m" using l by (cases l) (auto simp: len_def)
  have "separate_requests ?d = separate_loop ?d [[]] 0 0 ?d (len m)"
    using tot longer by (simp add: separate_requests_def)
  also have "\<dots> = separate_loop (concat ms' @ l) ([] @ [[] @ m]) (len ([] @ m)) (length ([] :: bytes list)) ?d (len m)"
    using separate_loop_fill [of "[]" m "len m" "concat ms' @ l" "[]" ?d] by (simp add: len_def)
  also have "\<dots> = Inr ([] @ [m] @ ms' @ [l])"
    using separate_loop_messages [OF ms' assms(2,3), of "[]" m] by simp
  finally show ?thesis by (simp add: Cons)
qed
theorem separate_requests_frames_witness:
  "list_all complete_message [[0, 10, 0, 0, 0, 1, 97, 98, 99, 100]]
   \<and> unpack_total_message_size [0, 14, 0, 0, 0, 2, 101, 102, 103, 104, 105, 106, 107, 108]
       = Inr 14
   \<and> len [0, 14, 0, 0, 0, 2, 101, 102, 103, 104, 105, 106, 107, 108 :: byte] \<le> 14
   \<and> separate_requests
        (concat [[0, 10, 0, 0, 0, 1, 97, 98, 99, 100]]
         @ [0, 14, 0, 0, 0, 2, 101, 102, 103, 104, 105, 106, 107, 108])
       = Inr ([[0, 10, 0, 0, 0, 1, 97, 98, 99, 100]]
              @ [[0, 14, 0, 0, 0, 2, 101, 102, 103, 104, 105, 106, 107, 108]])"
proof -
  have a: "list_all complete_message [[0, 10, 0, 0, 0, 1, 97, 98, 99, 100]]"
    by (simp add: complete_message_def unpack_H_def len_def)
  have b: "unpack_total_message_size
             [0, 14, 0, 0, 0, 2, 101, 102, 103, 104, 105, 106, 107, 108] = Inr 14"
    by (simp add: unpack_H_def)
  have c: "len [0, 14, 0, 0, 0, 2, 101, 102, 103, 104, 105, 106, 107, 108 :: byte] \<le> 14"
    by (simp add: len_def)
  show ?thesis
    using separate_requests_frames [OF a b c] a b c by simp
qed

text \<open>
  The claim as stated fails: a buffer of fifteen bytes whose length prefix declares
  twenty is returned whole as one slice instead of being refused.
\<close>

theorem separate_requests_truncated_counterexample:
  "unpack_total_message_size [0, 20, 0, 0, 0, 1, 1, 2, 3, 4, 5, 6, 7, 8, 9] = Inr 20
   \<and> len [0, 20, 0, 0, 0, 1, 1, 2, 3, 4, 5, 6, 7, 8, 9 :: byte] = 15
   \<and> separate_requests [0, 20, 0, 0, 0, 1, 1, 2, 3, 4, 5, 6, 7, 8, 9]
       = Inr [[0, 20, 0, 0, 0, 1, 1, 2, 3, 4, 5, 6, 7, 8, 9]]"
  by (simp add: separate_requests_def unpack_H_def len_def)

section \<open>Properties of the receiver\<close>


lemma buffer_request_keeps:
  "last_acked (buffer_request lt request) = last_acked lt"
  "message (buffer_request lt request) = message lt"
  "lt_window_size (buffer_request lt request) = lt_window_size lt"
  "max_message_length (buffer_request lt request) = max_message_length lt"
  "decided_size (buffer_request lt request) = decided_size lt"
  by (simp_all add: buffer_request_def Let_def)











lemma unpack_requests_fails:
  "s \<in> set separated \<Longrightarrow> MessageHeader_unpack s = Inl e \<Longrightarrow> \<exists>e'. unpack_requests separated = Inl e'"
  by (induction separated) (auto split: sum.splits)

text \<open>
  Claim C8 (a failed batch is abandoned). When the framer fails on a read, or any
  slice of the read fails to unpack, the pass sends nothing and returns the receiver
  state it was given: no request of the batch is processed, so \<open>last_acked\<close> and
  the assembled message are those from before the read.
\<close>

theorem failed_batch_abandoned:
  "(separate_requests d = Inl e \<longrightarrow> client_handler_read lt policy d = (lt, None))
   \<and> (separate_requests d = Inr separated \<and> s \<in> set separated
        \<and> MessageHeader_unpack s = Inl e'
      \<longrightarrow> client_handler_read lt policy d = (lt, None))"
proof (intro conjI impI)
  assume "separate_requests d = Inl e"
  then show "client_handler_read lt policy d = (lt, None)"
    by (simp add: client_handler_read_def)
next
  assume a: "separate_requests d = Inr separated \<and> s \<in> set separated
        \<and> MessageHeader_unpack s = Inl e'"
  then obtain e'' where "unpack_requests separated = Inl e''"
    using unpack_requests_fails by blast
  with a show "client_handler_read lt policy d = (lt, None)"
    by (simp add: client_handler_read_def)
qed


theorem failed_batch_abandoned_witness:
  "separate_requests [0, 7, 255, 251, 3, 1, 97, 0, 6, 0, 0, 3, 9]
     = Inr [[0, 7, 255, 251, 3, 1, 97], [0, 6, 0, 0, 3, 9]]
   \<and> [0, 6, 0, 0, 3, 9] \<in> set [[0, 7, 255, 251, 3, 1, 97], [0, 6, 0, 0, 3, 9 :: byte]]
   \<and> MessageHeader_unpack [0, 6, 0, 0, 3, 9] = Inl ValueError
   \<and> client_handler_read
        \<lparr>decided_size = True, max_message_length = 1000, lt_window_size = 4, last_acked = 0,
         message = [], buffer = []\<rparr> None [0, 7, 255, 251, 3, 1, 97, 0, 6, 0, 0, 3, 9]
       = (\<lparr>decided_size = True, max_message_length = 1000, lt_window_size = 4,
           last_acked = 0, message = [], buffer = []\<rparr>, None)
   \<and> separate_requests [0, 7, 255] = Inl ValueError
   \<and> client_handler_read
        \<lparr>decided_size = True, max_message_length = 1000, lt_window_size = 4, last_acked = 0,
         message = [], buffer = []\<rparr> None [0, 7, 255]
       = (\<lparr>decided_size = True, max_message_length = 1000, lt_window_size = 4,
           last_acked = 0, message = [], buffer = []\<rparr>, None)"
proof -
  let ?lt = "\<lparr>decided_size = True, max_message_length = 1000, lt_window_size = 4,
              last_acked = 0, message = [], buffer = []\<rparr>"
  have a: "separate_requests [0, 7, 255, 251, 3, 1, 97, 0, 6, 0, 0, 3, 9]
            = Inr [[0, 7, 255, 251, 3, 1, 97], [0, 6, 0, 0, 3, 9]]"
    by code_simp
  have b: "MessageHeader_unpack [0, 6, 0, 0, 3, 9] = Inl ValueError"
    by code_simp
  have c: "separate_requests [0, 7, 255] = Inl ValueError"
    by code_simp
  show ?thesis
    using failed_batch_abandoned
        [of "[0, 7, 255, 251, 3, 1, 97, 0, 6, 0, 0, 3, 9]" ValueError ?lt None
            "[[0, 7, 255, 251, 3, 1, 97], [0, 6, 0, 0, 3, 9]]" "[0, 6, 0, 0, 3, 9]" ValueError]
      failed_batch_abandoned [of "[0, 7, 255]" ValueError ?lt None]
      a b c
    by simp
qed

lemma handshake_window_at_least_two:
  assumes "2 \<le> W" and "W \<le> 128" and "0 \<le> m" and "m < 65536"
  shows "process_request initial_thread (Some m)
           \<lparr>total_length = 6, max_msg_size = 65531, actual_window_size = W,
            window_size = W - 1, package_num = 0, data = []\<rparr>
         = (\<lparr>decided_size = True, max_message_length = m, lt_window_size = W,
             last_acked = 0, message = [], buffer = []\<rparr>,
            Inr \<lparr>ack_max_msg_size = m, ack_number = 0\<rparr>)"
  using assms
  by (simp add: process_request_def initial_thread_def buffer_request_def len_def
      drain.simps remove_at_def data_to_message_def AckHeader_init_def)

text \<open>
  Claim C5 (the handshake probe is drained like data). For window sizes from 2 the
  probe is drained and acknowledged with number 0, as the lemma above shows. For
  window size 1 the code does otherwise: the probe that the client builds is taken
  for an already acknowledged segment (\<open>- 1 + 1 \<le> 0\<close>), nothing is drained,
  \<open>last_acked\<close> stays \<open>- 1\<close>, building the acknowledgement raises, and no
  acknowledgement is sent.
\<close>

theorem handshake_window_one_fails:
  "MessageHeader_init None 1 0 (- 1) [] =
     Inr \<lparr>total_length = 6, max_msg_size = 65531, actual_window_size = 1, window_size = 0,
          package_num = 0, data = []\<rparr>
   \<and> process_request initial_thread (Some 1000)
        \<lparr>total_length = 6, max_msg_size = 65531, actual_window_size = 1, window_size = 0,
         package_num = 0, data = []\<rparr>
      = (\<lparr>decided_size = True, max_message_length = 1000, lt_window_size = 1,
          last_acked = - 1, message = [], buffer = []\<rparr>, Inl ValueError)
   \<and> client_handler_read initial_thread (Some 1000) [0, 6, 255, 251, 0, 0]
      = (\<lparr>decided_size = True, max_message_length = 1000, lt_window_size = 1,
          last_acked = - 1, message = [], buffer = []\<rparr>, None)"
  by code_simp

text \<open>
  Claim C1 (the drain runs up to the first gap). The code does otherwise: after the
  handshake with window size 4, the segments numbered 2, 1, 3 arrive in that order,
  and the final acknowledgement is 2 with segment 3 still pending, although it is the
  next in sequence. The drain loop removes the current package from the list it is
  iterating over, so the package after each drained one is skipped: started on
  pending segments 1, 2, 3 it drains only segment 1.
\<close>

theorem drain_skips_next_package:
  "client_handler_reads initial_thread (Some 1000)
     [[0, 6, 255, 251, 3, 0], [0, 7, 255, 251, 3, 2, 98], [0, 7, 255, 251, 3, 1, 97],
      [0, 7, 255, 251, 3, 3, 99]]
   = (\<lparr>decided_size = True, max_message_length = 1000, lt_window_size = 4, last_acked = 2,
       message = [97, 98],
       buffer = [\<lparr>total_length = 7, max_msg_size = 65531, actual_window_size = 4,
                  window_size = 3, package_num = 3, data = [99]\<rparr>]\<rparr>,
      [Some [3, 232, 0], Some [3, 232, 0], Some [3, 232, 1], Some [3, 232, 2]])
   \<and> drain 0
        \<lparr>decided_size = True, max_message_length = 1000, lt_window_size = 4, last_acked = 0,
         message = [],
         buffer = [\<lparr>total_length = 7, max_msg_size = 65531, actual_window_size = 4,
                    window_size = 3, package_num = 1, data = [97]\<rparr>,
                   \<lparr>total_length = 7, max_msg_size = 65531, actual_window_size = 4,
                    window_size = 3, package_num = 2, data = [98]\<rparr>,
                   \<lparr>total_length = 7, max_msg_size = 65531, actual_window_size = 4,
                    window_size = 3, package_num = 3, data = [99]\<rparr>]\<rparr>
      = (\<lparr>decided_size = True, max_message_length = 1000, lt_window_size = 4,
          last_acked = 1, message = [97],
          buffer = [\<lparr>total_length = 7, max_msg_size = 65531, actual_window_size = 4,
                     window_size = 3, package_num = 2, data = [98]\<rparr>,
                    \<lparr>total_length = 7, max_msg_size = 65531, actual_window_size = 4,
                     window_size = 3, package_num = 3, data = [99]\<rparr>]\<rparr>, None)"
  by code_simp

text \<open>
  Claim C6 (re-delivery of an acknowledged segment changes nothing). The code does
  otherwise in a state it reaches: after the handshake with window size 4 and the
  segments 2, 3, 1, the receiver has acknowledged 1 and still holds 2 and 3;
  delivering segment 1 again then drains segment 2, so \<open>last_acked\<close> goes from 1
  to 2 and the assembled message grows. Where the pending buffer holds no next
  package the re-delivery does change nothing, as the lemma below shows.
\<close>

theorem redelivery_changes_state:
  "client_handler_reads initial_thread (Some 1000)
     [[0, 6, 255, 251, 3, 0], [0, 7, 255, 251, 3, 2, 98], [0, 7, 255, 251, 3, 3, 99],
      [0, 7, 255, 251, 3, 1, 97]]
   = (\<lparr>decided_size = True, max_message_length = 1000, lt_window_size = 4, last_acked = 1,
       message = [97],
       buffer = [\<lparr>total_length = 7, max_msg_size = 65531, actual_window_size = 4,
                  window_size = 3, package_num = 2, data = [98]\<rparr>,
                 \<lparr>total_length = 7, max_msg_size = 65531, actual_window_size = 4,
                  window_size = 3, package_num = 3, data = [99]\<rparr>]\<rparr>,
      [Some [3, 232, 0], Some [3, 232, 0], Some [3, 232, 0], Some [3, 232, 1]])
   \<and> process_request
        \<lparr>decided_size = True, max_message_length = 1000, lt_window_size = 4, last_acked = 1,
         message = [97],
         buffer = [\<lparr>total_length = 7, max_msg_size = 65531, actual_window_size = 4,
                    window_size = 3, package_num = 2, data = [98]\<rparr>,
                   \<lparr>total_length = 7, max_msg_size = 65531, actual_window_size = 4,
                    window_size = 3, package_num = 3, data = [99]\<rparr>]\<rparr>
        None
        \<lparr>total_length = 7, max_msg_size = 65531, actual_window_size = 4, window_size = 3,
         package_num = 1, data = [97]\<rparr>
      = (\<lparr>decided_size = True, max_message_length = 1000, lt_window_size = 4,
          last_acked = 2, message = [97, 98],
          buffer = [\<lparr>total_length = 7, max_msg_size = 65531, actual_window_size = 4,
                     window_size = 3, package_num = 3, data = [99]\<rparr>]\<rparr>,
         Inr \<lparr>ack_max_msg_size = 1000, ack_number = 2\<rparr>)"
  by code_simp

lemma stale_redelivery_without_pending_work:
  assumes "decided_size lt"
    and "(last_acked lt - lt_window_size lt < package_num request
            \<and> package_num request \<le> last_acked lt)
          \<or> last_acked lt + lt_window_size lt \<le> package_num request"
    and "lt_window_size lt \<noteq> 0"
    and "buffer lt = [] \<or>
         package_num (hd (buffer lt)) \<noteq> (last_acked lt + 1) mod (2 * lt_window_size lt)"
  shows "fst (process_request lt policy request) = lt"
proof -
  have b: "buffer_request lt request = lt"
    using assms(2) by (simp add: buffer_request_def Let_def)
  have d: "(if len (buffer lt) > 0 then drain 0 lt else (lt, None)) = (lt, None)"
    using assms(3,4) by (cases "buffer lt") (auto simp: drain.simps len_def Let_def)
  show ?thesis
    using assms(1) b d by (simp add: process_request_def Let_def split: sum.splits)
qed

section \<open>Properties of the sender\<close>

lemma constructed_round_trip:
  assumes "constructed h"
  shows "\<exists>b. MessageHeader_pack h = Inr b \<and> MessageHeader_unpack b = Inr h"
  using assms MessageHeader_round_trip unfolding constructed_def by blast

lemma MessageHeader_init_constructed:
  "MessageHeader_init t ws pn mms d = Inr h \<Longrightarrow> constructed h"
  unfolding constructed_def by (rule MessageHeader_init_again)

lemma resend_window:
  "list_all constructed w \<Longrightarrow>
   \<exists>out. resend w acc = Inr (acc @ out)
      \<and> map MessageHeader_pack w = map Inr out
      \<and> map MessageHeader_unpack out = map Inr w"
proof (induction w arbitrary: acc)
  case Nil
  then show ?case by simp
next
  case (Cons h w)
  have "constructed h" and w: "list_all constructed w" using Cons.prems by simp_all
  then obtain b where b: "MessageHeader_pack h = Inr b" "MessageHeader_unpack b = Inr h"
    using constructed_round_trip by blast
  obtain out where out: "resend w (acc @ [b]) = Inr ((acc @ [b]) @ out)"
      "map MessageHeader_pack w = map Inr out" "map MessageHeader_unpack out = map Inr w"
    using Cons.IH [OF w, of "acc @ [b]"] by blast
  have "resend (h # w) acc = Inr (acc @ (b # out))" using b(1) out(1) by simp
  moreover have "map MessageHeader_pack (h # w) = map Inr (b # out)" using b(1) out(2) by simp
  moreover have "map MessageHeader_unpack (b # out) = map Inr (h # w)" using b(2) out(3) by simp
  ultimately show ?case by blast
qed

text \<open>
  Claim C9 (go-back-N). When the timeout branch runs at time \<open>now\<close> in a sender
  state whose outstanding segments are objects of the constructor, it succeeds, sets
  the clock to \<open>now\<close>, leaves the window and everything else as they were, and
  writes to the socket exactly one byte string per outstanding segment, in the order
  of the window: the packed form of that segment, which unpacks to the segment itself.
\<close>

theorem timeout_resends_window:
  assumes "list_all constructed (sliding_window s)"
  shows "\<exists>out. on_timeout now s = Inr (s\<lparr>first_msg_sent := now, sent := sent s @ out\<rparr>)
           \<and> map MessageHeader_pack (sliding_window s) = map Inr out
           \<and> map MessageHeader_unpack out = map Inr (sliding_window s)"
proof -
  obtain out where out: "resend (sliding_window s) (sent s) = Inr (sent s @ out)"
      "map MessageHeader_pack (sliding_window s) = map Inr out"
      "map MessageHeader_unpack out = map Inr (sliding_window s)"
    using resend_window [OF assms] by blast
  have "on_timeout now s = Inr (s\<lparr>first_msg_sent := now, sent := sent s @ out\<rparr>)"
    using out(1) by (simp add: on_timeout_def)
  with out(2,3) show ?thesis by blast
qed

lemma divide_loop_bound:
  "\<forall>c \<in> set (acc @ [cur]). len c \<le> max m 1 \<Longrightarrow>
   \<forall>c \<in> set (divide_loop msg (acc @ [cur]) (length acc) m). len c \<le> max m 1"
proof (induction msg arbitrary: acc cur)
  case Nil
  then show ?case by simp
next
  case (Cons ch msg)
  show ?case
  proof (cases "len cur < m")
    case True
    have "\<forall>c \<in> set (acc @ [cur @ [ch]]). len c \<le> max m 1"
      using Cons.prems True by (auto simp: len_def)
    from Cons.IH [OF this] show ?thesis
      using True by (simp add: nth_last update_last)
  next
    case False
    have "\<forall>c \<in> set ((acc @ [cur]) @ [[ch]]). len c \<le> max m 1"
      using Cons.prems by (auto simp: len_def)
    from Cons.IH [OF this] show ?thesis
      using False by (simp add: nth_last)
  qed
qed

lemma divide_loop_concat:
  "concat (divide_loop msg (acc @ [cur]) (length acc) m) = concat acc @ cur @ msg"
proof (induction msg arbitrary: acc cur)
  case Nil
  then show ?case by simp
next
  case (Cons ch msg)
  show ?case
  proof (cases "len cur < m")
    case True
    then show ?thesis
      using Cons.IH [of acc "cur @ [ch]"] by (simp add: nth_last update_last)
  next
    case False
    then show ?thesis
      using Cons.IH [of "acc @ [cur]" "[ch]"] by (simp add: nth_last)
  qed
qed

lemma divide_msg_bound: "\<forall>c \<in> set (divide_msg msg m). len c \<le> max m 1"
  using divide_loop_bound [of "[]" "[]" m msg] by (simp add: divide_msg_def len_def)

lemma divide_msg_concat: "concat (divide_msg msg m) = msg"
  using divide_loop_concat [of msg "[]" "[]" m] by (simp add: divide_msg_def)

lemma send_next_package:
  assumes "send_next ws do_send s = Inr s'" and "divided_msgs s = chunk # chunks"
    and "len (sliding_window s) < ws"
  shows "\<exists>package. sliding_window s' = sliding_window s @ [package]
           \<and> encode chunk = Inr (data package)
           \<and> max_msg_size package = 65531
           \<and> len (data package) \<le> max_msg_size package - 6
           \<and> package_num package = (package_number s + 1) mod (2 * ws)
           \<and> divided_msgs s' = chunks"
proof -
  from assms obtain msg_part package where e: "encode chunk = Inr msg_part"
    and i: "MessageHeader_init (Some (HEADER_MIN_LENGTH + len msg_part)) ws
              ((package_number s + 1) mod (2 * ws)) (- 1) msg_part = Inr package"
    by (auto simp: send_next_def Let_def split: sum.splits)
  note f = MessageHeader_init_fields [OF i]
  have s': "sliding_window s' = sliding_window s @ [package] \<and> divided_msgs s' = chunks"
    using assms e i by (auto simp: send_next_def Let_def split: sum.splits if_splits)
  show ?thesis
    using s' e f by (intro exI [of _ package]) auto
qed

lemma send_next_keeps_constructed:
  assumes "send_next ws do_send s = Inr s'" and "list_all constructed (sliding_window s)"
  shows "list_all constructed (sliding_window s')"
proof (cases "divided_msgs s")
  case Nil
  then show ?thesis using assms by (simp add: send_next_def)
next
  case (Cons chunk chunks)
  show ?thesis
  proof (cases "len (sliding_window s) < ws")
    case True
    from assms(1) Cons True obtain msg_part package pn
      where i: "MessageHeader_init (Some (HEADER_MIN_LENGTH + len msg_part)) ws pn (- 1)
                  msg_part = Inr package"
        and w: "sliding_window s' = sliding_window s @ [package]"
      by (auto simp: send_next_def Let_def split: sum.splits if_splits)
    show ?thesis
      using assms(2) w MessageHeader_init_constructed [OF i] by simp
  next
    case False
    then show ?thesis using assms Cons by (simp add: send_next_def)
  qed
qed

theorem timeout_resends_window_witness:
  "list_all constructed
     [\<lparr>total_length = 7, max_msg_size = 65531, actual_window_size = 4, window_size = 3,
       package_num = 1, data = [97]\<rparr>,
      \<lparr>total_length = 7, max_msg_size = 65531, actual_window_size = 4, window_size = 3,
       package_num = 2, data = [98]\<rparr>]
   \<and> (\<exists>out. on_timeout (7 :: nat)
          \<lparr>divided_msgs = [], sliding_window =
             [\<lparr>total_length = 7, max_msg_size = 65531, actual_window_size = 4,
               window_size = 3, package_num = 1, data = [97]\<rparr>,
              \<lparr>total_length = 7, max_msg_size = 65531, actual_window_size = 4,
               window_size = 3, package_num = 2, data = [98]\<rparr>],
            package_number = 2, first_msg_sent = 3, sent = []\<rparr>
        = Inr \<lparr>divided_msgs = [], sliding_window =
             [\<lparr>total_length = 7, max_msg_size = 65531, actual_window_size = 4,
               window_size = 3, package_num = 1, data = [97]\<rparr>,
              \<lparr>total_length = 7, max_msg_size = 65531, actual_window_size = 4,
               window_size = 3, package_num = 2, data = [98]\<rparr>],
            package_number = 2, first_msg_sent = 7, sent = out\<rparr>
        \<and> map MessageHeader_unpack out =
            [Inr \<lparr>total_length = 7, max_msg_size = 65531, actual_window_size = 4,
                  window_size = 3, package_num = 1, data = [97]\<rparr>,
             Inr \<lparr>total_length = 7, max_msg_size = 65531, actual_window_size = 4,
                  window_size = 3, package_num = 2, data = [98]\<rparr>])"
proof -
  let ?w = "[\<lparr>total_length = 7, max_msg_size = 65531, actual_window_size = 4,
              window_size = 3, package_num = 1, data = [97]\<rparr>,
             \<lparr>total_length = 7, max_msg_size = 65531, actual_window_size = 4,
              window_size = 3, package_num = 2, data = [98]\<rparr>]"
  let ?s = "\<lparr>divided_msgs = [], sliding_window = ?w, package_number = 2,
             first_msg_sent = 3 :: nat, sent = []\<rparr>"
  have c: "list_all constructed ?w"
    by code_simp
  have "list_all constructed (sliding_window ?s)"
    using c by simp
  from timeout_resends_window [OF this, of 7]
  obtain out where o: "on_timeout 7 ?s = Inr (?s\<lparr>first_msg_sent := 7, sent := sent ?s @ out\<rparr>)"
      "map MessageHeader_unpack out = map Inr (sliding_window ?s)"
    by blast
  have "on_timeout 7 ?s = Inr (?s\<lparr>first_msg_sent := 7, sent := out\<rparr>)"
    using o(1) by simp
  moreover have "map MessageHeader_unpack out = map Inr ?w"
    using o(2) by simp
  ultimately show ?thesis
    using c by (intro conjI exI [of _ out]) simp_all
qed

text \<open>
  Claim C7 (chunk size), as amended. Every chunk that \<open>divide_msg\<close> cuts has at
  most as many characters as the negotiated ceiling itself (one character when the
  ceiling is below one): the header length is not subtracted. The chunks put together
  are the message. Every data segment the client builds from a chunk carries the
  chunk's encoding as its payload and the default maximum message size 65531, not the
  negotiated ceiling, and its payload has at most that size less six bytes.
\<close>

theorem chunks_within_ceiling:
  "(\<forall>c \<in> set (divide_msg msg max_size). len c \<le> max max_size 1)
   \<and> concat (divide_msg msg max_size) = msg
   \<and> (send_next ws do_send s = Inr s' \<and> divided_msgs s = chunk # chunks
        \<and> len (sliding_window s) < ws
      \<longrightarrow> (\<exists>package. sliding_window s' = sliding_window s @ [package]
             \<and> encode chunk = Inr (data package)
             \<and> max_msg_size package = 65531
             \<and> len (data package) \<le> max_msg_size package - 6))"
proof (intro conjI impI)
  show "\<forall>c \<in> set (divide_msg msg max_size). len c \<le> max max_size 1"
    by (rule divide_msg_bound)
  show "concat (divide_msg msg max_size) = msg"
    by (rule divide_msg_concat)
  assume "send_next ws do_send s = Inr s' \<and> divided_msgs s = chunk # chunks
        \<and> len (sliding_window s) < ws"
  then show "\<exists>package. sliding_window s' = sliding_window s @ [package]
             \<and> encode chunk = Inr (data package)
             \<and> max_msg_size package = 65531
             \<and> len (data package) \<le> max_msg_size package - 6"
    using send_next_package [of ws do_send s s' chunk chunks] by blast
qed

theorem chunks_within_ceiling_witness:
  "divide_msg [97, 98, 99, 100, 101, 102, 103 :: nat] 3 = [[97, 98, 99], [100, 101, 102], [103]]
   \<and> len [97, 98, 99 :: nat] \<le> max 3 1 \<and> len [100, 101, 102 :: nat] \<le> max 3 1
   \<and> len [103 :: nat] \<le> max 3 1
   \<and> send_next 4 True
        \<lparr>divided_msgs = [[97, 98, 99]], sliding_window = [], package_number = 0,
         first_msg_sent = 0 :: nat, sent = []\<rparr>
      = Inr \<lparr>divided_msgs = [], sliding_window =
               [\<lparr>total_length = 9, max_msg_size = 65531, actual_window_size = 4,
                 window_size = 3, package_num = 1, data = [97, 98, 99]\<rparr>],
             package_number = 1, first_msg_sent = 0, sent = [[0, 9, 255, 251, 3, 1, 97, 98, 99]]\<rparr>
   \<and> (\<exists>package.
         [\<lparr>total_length = 9, max_msg_size = 65531, actual_window_size = 4,
           window_size = 3, package_num = 1, data = [97, 98, 99]\<rparr>] = [] @ [package]
         \<and> encode [97, 98, 99] = Inr (data package)
         \<and> max_msg_size package = 65531
         \<and> len (data package) \<le> max_msg_size package - 6)"
proof -
  let ?s = "\<lparr>divided_msgs = [[97, 98, 99]], sliding_window = [], package_number = 0,
             first_msg_sent = 0 :: nat, sent = []\<rparr>"
  let ?s' = "\<lparr>divided_msgs = [], sliding_window =
               [\<lparr>total_length = 9, max_msg_size = 65531, actual_window_size = 4,
                 window_size = 3, package_num = 1, data = [97, 98, 99]\<rparr>],
             package_number = 1, first_msg_sent = 0 :: nat,
             sent = [[0, 9, 255, 251, 3, 1, 97, 98, 99]]\<rparr>"
  have d: "divide_msg [97, 98, 99, 100, 101, 102, 103 :: nat] 3
             = [[97, 98, 99], [100, 101, 102], [103]]"
    by code_simp
  have n: "send_next 4 True ?s = Inr ?s'"
    by code_simp
  show ?thesis
    using chunks_within_ceiling [of "[97, 98, 99, 100, 101, 102, 103 :: nat]" 3 4 True ?s ?s'
        "[97, 98, 99]" "[]"] d n
    by (simp add: len_def)
qed

text \<open>
  The claim as stated fails: with a negotiated ceiling of 10 a message of ten
  characters is one chunk of ten, more than the ceiling less the six header bytes, and
  the segment sent for it carries all ten bytes.
\<close>

theorem chunk_exceeds_ceiling_less_header_counterexample:
  "divide_msg [97, 98, 99, 100, 101, 102, 103, 104, 105, 106 :: nat] 10
     = [[97, 98, 99, 100, 101, 102, 103, 104, 105, 106]]
   \<and> 10 - HEADER_MIN_LENGTH < len [97, 98, 99, 100, 101, 102, 103, 104, 105, 106 :: nat]
   \<and> send_next 4 True
        \<lparr>divided_msgs = [[97, 98, 99, 100, 101, 102, 103, 104, 105, 106]],
         sliding_window = [], package_number = 0, first_msg_sent = 0 :: nat, sent = []\<rparr>
      = Inr \<lparr>divided_msgs = [], sliding_window =
               [\<lparr>total_length = 16, max_msg_size = 65531, actual_window_size = 4,
                 window_size = 3, package_num = 1,
                 data = [97, 98, 99, 100, 101, 102, 103, 104, 105, 106]\<rparr>],
             package_number = 1, first_msg_sent = 0,
             sent = [[0, 16, 255, 251, 3, 1, 97, 98, 99, 100, 101, 102, 103, 104, 105, 106]]\<rparr>"
  by code_simp

end
